theory Spec2Isabelle
  imports Complex_Main
begin

section \<open>Python values, exceptions and the module logger\<close>

text \<open>
  The development embeds \<^verbatim>\<open>openmodelica_microgrid_gym/env/modelica.py\<close> (class
  \<^verbatim>\<open>ModelicaEnv\<close>) and \<^verbatim>\<open>gym_microgrid/controllers/params.py\<close>.
  Python floats are read as exact reals: the model follows the control flow and the
  bookkeeping of the code, not the rounding of IEEE arithmetic. The values a float or a
  reward can take besides a finite number (\<^verbatim>\<open>nan\<close>, \<^verbatim>\<open>inf\<close>, \<^verbatim>\<open>-inf\<close>, \<^verbatim>\<open>None\<close>)
  are constructors of their own.
\<close>

datatype error = ValueError | TypeError | ZeroDivisionError | SolverError | HistoryError

datatype level = DEBUG | INFO | WARNING | ERROR

text \<open>One constructor per call of \<^verbatim>\<open>logger.debug/info/warning/error\<close> in the module.\<close>

datatype message =
    LoadingModel string
  | LoadedModel string
  | VizColsHint
  | SimulationStarted real real
  | RewardExtreme
  | TimeIs real
  | ResetCalled
  | StepCalled
  | StepAfterDone
  | ActionNotList
  | ArityMessage nat
  | ModelInput "string list" "real list"
  | ModelOutput "string list" "real list"
  | StepContinues
  | StepExperimentDone

text \<open>What \<^verbatim>\<open>reward_fun\<close> may return: a float (finite, nan, +inf, -inf) or \<^verbatim>\<open>None\<close>.\<close>

datatype reward_value = Float real | NaN | PosInf | NegInf | PyNone

text \<open>
  \<^verbatim>\<open>np.isnan\<close> and \<^verbatim>\<open>np.isinf\<close> are numpy ufuncs: on \<^verbatim>\<open>None\<close> they raise
  \<^verbatim>\<open>TypeError\<close> (the input type is not supported), on a float they answer.
  \<^verbatim>\<open>reward < 0\<close> on \<^verbatim>\<open>None\<close> is a \<^verbatim>\<open>TypeError\<close> of Python 3 as well.
\<close>

fun np_isnan :: "reward_value \<Rightarrow> error + bool" where
  "np_isnan PyNone = Inl TypeError"
| "np_isnan NaN = Inr True"
| "np_isnan _ = Inr False"

fun np_isinf :: "reward_value \<Rightarrow> error + bool" where
  "np_isinf PyNone = Inl TypeError"
| "np_isinf PosInf = Inr True"
| "np_isinf NegInf = Inr True"
| "np_isinf _ = Inr False"

fun lt_zero :: "reward_value \<Rightarrow> error + bool" where
  "lt_zero PyNone = Inl TypeError"
| "lt_zero (Float x) = Inr (x < 0)"
| "lt_zero NegInf = Inr True"
| "lt_zero _ = Inr False"

text \<open>
  Line 339:
  \<^verbatim>\<open>self._failed = np.isnan(reward) or np.isinf(reward) and reward < 0 or reward is None\<close>.
  Python parses it as \<^verbatim>\<open>A or (B and C) or D\<close> and evaluates from the left, stopping at
  the first operand that decides; an operand that raises ends the evaluation.
\<close>

definition failure_flag :: "reward_value \<Rightarrow> error + bool" where
  "failure_flag r =
     (case np_isnan r of
        Inl e \<Rightarrow> Inl e
      | Inr True \<Rightarrow> Inr True
      | Inr False \<Rightarrow>
          (case np_isinf r of
             Inl e \<Rightarrow> Inl e
           | Inr False \<Rightarrow> Inr (r = PyNone)
           | Inr True \<Rightarrow>
               (case lt_zero r of
                  Inl e \<Rightarrow> Inl e
                | Inr True \<Rightarrow> Inr True
                | Inr False \<Rightarrow> Inr (r = PyNone))))"

text \<open>The \<^verbatim>\<open>action\<close> argument of \<^verbatim>\<open>step\<close>: a sequence, or a value \<^verbatim>\<open>iter\<close> rejects.\<close>

datatype action = Scalar real | Sequence "real list"

text \<open>\<^verbatim>\<open>time_end\<close> is \<^verbatim>\<open>np.inf\<close> or a float.\<close>

datatype time_limit = Unbounded | Limit real

fun exceeds :: "real \<Rightarrow> time_limit \<Rightarrow> bool" where
  "exceeds t Unbounded = False"
| "exceeds t (Limit e) = (e < t)"

section \<open>The observation history\<close>

text \<open>
  Columns as \<^verbatim>\<open>structured_cols()\<close> yields them: a single name or a list of names.
\<close>

datatype col_group = Single string | Group "string list"

fun group_cols :: "col_group \<Rightarrow> string list" where
  "group_cols (Single c) = [c]"
| "group_cols (Group cs) = cs"

record history =
  structured :: "col_group list"
  records :: "real list list"

text \<open>
  Modelled from the spec: the class \<^verbatim>\<open>FullHistory\<close> of
  \<^verbatim>\<open>openmodelica_microgrid_gym.util\<close> is not among the sources. The spec (sections 3
  and 4.4) gives it a column schema fixed at construction, kept with its grouping and
  read flat as \<^verbatim>\<open>cols\<close>; \<^verbatim>\<open>reset()\<close> clears the records and keeps the schema;
  \<^verbatim>\<open>append(record)\<close> adds a record at the end and fails fast when the record's length
  is not that of the schema.
\<close>

definition cols :: "history \<Rightarrow> string list" where
  "cols h = concat (map group_cols (structured h))"

definition history_reset :: "history \<Rightarrow> history" where
  "history_reset h = h\<lparr>records := []\<rparr>"

definition history_append :: "history \<Rightarrow> real list \<Rightarrow> error + history" where
  "history_append h rec =
     (if length rec = length (cols h) then Inr (h\<lparr>records := records h @ [rec]\<rparr>)
      else Inl HistoryError)"

section \<open>The oracle and the solver\<close>

text \<open>
  The FMU (\<^verbatim>\<open>self.model\<close>) and \<^verbatim>\<open>scipy.integrate.solve_ivp\<close> are black boxes of
  the code. Their state is a value of type \<open>'m\<close>, their methods are the fields of a
  record; every function of the environment takes that record as its first argument.
  \<^verbatim>\<open>solve_ivp\<close> stands for the call of line 236 together with the callbacks
  \<^verbatim>\<open>_get_deriv\<close> and \<^verbatim>\<open>_calc_jac\<close> it drives (they write \<^verbatim>\<open>model.time\<close> and
  \<^verbatim>\<open>model.continuous_states\<close>): it may raise, and otherwise returns the flag
  \<^verbatim>\<open>sol_out.success\<close> and the last column \<^verbatim>\<open>sol_out.y[:, -1]\<close>; either way it leaves
  the oracle in a new state.
\<close>

record 'm fmu =
  load_fmu :: "string \<Rightarrow> 'm"
  fmu_reset :: "'m \<Rightarrow> 'm"
  setup_experiment :: "real \<Rightarrow> 'm \<Rightarrow> 'm"
  enter_initialization_mode :: "'m \<Rightarrow> 'm"
  exit_initialization_mode :: "'m \<Rightarrow> 'm"
  enter_event_mode :: "'m \<Rightarrow> 'm"
  event_update :: "'m \<Rightarrow> 'm"
  new_discrete_states_needed :: "'m \<Rightarrow> bool"
  enter_continuous_time_mode :: "'m \<Rightarrow> 'm"
  get_variable_valueref :: "'m \<Rightarrow> string \<Rightarrow> nat"
  get_continuous_states :: "'m \<Rightarrow> real list"
  set_continuous_states :: "real list \<Rightarrow> 'm \<Rightarrow> 'm"
  fmu_set :: "string list \<Rightarrow> real list \<Rightarrow> 'm \<Rightarrow> 'm"
  get_real :: "'m \<Rightarrow> nat \<Rightarrow> real"
  solve_ivp :: "string \<Rightarrow> real \<times> real \<Rightarrow> real list \<Rightarrow> 'm \<Rightarrow> (error + bool \<times> real list) \<times> 'm"

section \<open>Regular expressions and \<^verbatim>\<open>fnmatch.translate\<close>\<close>

text \<open>
  \<^verbatim>\<open>viz_col_regex\<close> is a pattern of Python's \<^verbatim>\<open>re\<close>. The model keeps it as abstract
  syntax. \<open>Eps\<close> is the empty pattern, \<open>EndZ\<close> is \<^verbatim>\<open>\Z\<close>, \<open>Dot\<close> is \<^verbatim>\<open>.\<close> (any
  character but a newline), \<open>DotAll\<close> is \<^verbatim>\<open>.\<close> under \<^verbatim>\<open>(?s:...)\<close>, \<open>CharSet neg rs\<close>
  is a bracket expression of ranges (negated when \<open>neg\<close>); \<open>Nothing\<close> matches no
  string and only arises from derivatives.
\<close>

datatype regex =
    Nothing
  | Eps
  | EndZ
  | Lit char
  | Dot
  | DotAll
  | CharSet bool "(char \<times> char) list"
  | Conc regex regex
  | Alt regex regex
  | Star regex

fun in_ranges :: "char \<Rightarrow> (char \<times> char) list \<Rightarrow> bool" where
  "in_ranges c [] = False"
| "in_ranges c ((lo, hi) # rs) =
     (((of_char lo :: nat) \<le> of_char c \<and> (of_char c :: nat) \<le> of_char hi) \<or> in_ranges c rs)"

text \<open>A pattern matches the empty string at the end of the input ...\<close>

fun accepts_end :: "regex \<Rightarrow> bool" where
  "accepts_end Nothing = False"
| "accepts_end Eps = True"
| "accepts_end EndZ = True"
| "accepts_end (Lit c) = False"
| "accepts_end Dot = False"
| "accepts_end DotAll = False"
| "accepts_end (CharSet neg rs) = False"
| "accepts_end (Conc r s) = (accepts_end r \<and> accepts_end s)"
| "accepts_end (Alt r s) = (accepts_end r \<or> accepts_end s)"
| "accepts_end (Star r) = True"

text \<open>... or before more input, where \<^verbatim>\<open>\Z\<close> does not hold.\<close>

fun skippable :: "regex \<Rightarrow> bool" where
  "skippable Nothing = False"
| "skippable Eps = True"
| "skippable EndZ = False"
| "skippable (Lit c) = False"
| "skippable Dot = False"
| "skippable DotAll = False"
| "skippable (CharSet neg rs) = False"
| "skippable (Conc r s) = (skippable r \<and> skippable s)"
| "skippable (Alt r s) = (skippable r \<or> skippable s)"
| "skippable (Star r) = True"

text \<open>The pattern left to match once the character \<open>c\<close> has been read.\<close>

fun deriv :: "char \<Rightarrow> regex \<Rightarrow> regex" where
  "deriv c Nothing = Nothing"
| "deriv c Eps = Nothing"
| "deriv c EndZ = Nothing"
| "deriv c (Lit d) = (if c = d then Eps else Nothing)"
| "deriv c Dot = (if c = CHR 0x0A then Nothing else Eps)"
| "deriv c DotAll = Eps"
| "deriv c (CharSet neg rs) = (if in_ranges c rs \<noteq> neg then Eps else Nothing)"
| "deriv c (Conc r s) =
     (if skippable r then Alt (Conc (deriv c r) s) (deriv c s) else Conc (deriv c r) s)"
| "deriv c (Alt r s) = Alt (deriv c r) (deriv c s)"
| "deriv c (Star r) = Conc (deriv c r) (Star r)"

text \<open>\<^verbatim>\<open>re.fullmatch(pattern, string)\<close>, as a truth value.\<close>

fun fullmatch :: "regex \<Rightarrow> string \<Rightarrow> bool" where
  "fullmatch r [] = accepts_end r"
| "fullmatch r (c # cs) = fullmatch (deriv c r) cs"

text \<open>
  \<^verbatim>\<open>fnmatch.translate(pat)\<close> of the standard library, after its documentation and its
  algorithm: \<^verbatim>\<open>*\<close> matches everything, \<^verbatim>\<open>?\<close> one character, \<^verbatim>\<open>[seq]\<close> a character of
  \<open>seq\<close>, \<^verbatim>\<open>[!seq]\<close> a character not in \<open>seq\<close>; a \<^verbatim>\<open>[\<close> with no closing bracket
  and every other character stand for themselves; the result is \<^verbatim>\<open>(?s:...)\Z\<close>. The
  closing bracket is searched as the library does: past a leading \<^verbatim>\<open>!\<close>, past a
  \<^verbatim>\<open>]\<close> right after it. In the bracket, \<open>a-b\<close> is a range (an empty one matches
  nothing) and any other character stands for itself.
\<close>

fun find_bracket :: "string \<Rightarrow> nat option" where
  "find_bracket [] = None"
| "find_bracket (c # cs) = (if c = CHR '']'' then Some 0 else map_option Suc (find_bracket cs))"

definition close_index :: "string \<Rightarrow> nat option" where
  "close_index cs =
     (let j1 = (if 0 < length cs \<and> cs ! 0 = CHR ''!'' then 1 else 0);
          j2 = (if j1 < length cs \<and> cs ! j1 = CHR '']'' then j1 + 1 else j1)
      in map_option (\<lambda>k. j2 + k) (find_bracket (drop j2 cs)))"

fun class_ranges :: "string \<Rightarrow> (char \<times> char) list" where
  "class_ranges (a # m # b # cs) =
     (if m = CHR ''-'' then (a, b) # class_ranges cs else (a, a) # class_ranges (m # b # cs))"
| "class_ranges (a # cs) = (a, a) # class_ranges cs"
| "class_ranges [] = []"

definition bracket_class :: "string \<Rightarrow> regex" where
  "bracket_class stuff =
     (if stuff \<noteq> [] \<and> hd stuff = CHR ''!'' then CharSet True (class_ranges (tl stuff))
      else CharSet False (class_ranges stuff))"

fun translate_body :: "string \<Rightarrow> regex" where
  "translate_body [] = Eps"
| "translate_body (c # cs) =
     (if c = CHR ''*'' then Conc (Star DotAll) (translate_body cs)
      else if c = CHR ''?'' then Conc DotAll (translate_body cs)
      else if c = CHR ''['' then
        (case close_index cs of
           None \<Rightarrow> Conc (Lit (CHR ''['')) (translate_body cs)
         | Some j \<Rightarrow> Conc (bracket_class (take j cs)) (translate_body (drop (Suc j) cs)))
      else Conc (Lit c) (translate_body cs))"

definition translate :: "string \<Rightarrow> regex" where
  "translate pat = Conc (translate_body pat) EndZ"

text \<open>
  \<^verbatim>\<open>'|'.join(patterns)\<close>, read as a pattern: the empty string is the empty pattern,
  one pattern is itself, more are alternatives (each \<^verbatim>\<open>(?s:...)\Z\<close> is closed, so the
  bars stand at top level).
\<close>

fun join_bar :: "regex list \<Rightarrow> regex" where
  "join_bar [] = Eps"
| "join_bar [r] = r"
| "join_bar (r # rs) = Alt r (join_bar rs)"

section \<open>The environment\<close>

datatype plot_tmpl = PlotTmpl "string list"

text \<open>The arguments of \<^verbatim>\<open>ModelicaEnv.__init__\<close>.\<close>

datatype viz_elem = PatternStr string | Tmpl plot_tmpl | OtherElem

datatype viz_cols = NoVizCols | VizList "viz_elem list" | VizRegex regex | VizOther

datatype param = Constant real | Callable "real \<Rightarrow> real"

record config =
  c_time_step :: real
  c_time_start :: real
  c_reward_fun :: "string list \<Rightarrow> real list \<Rightarrow> reward_value"
  c_solver_method :: string
  c_max_episode_steps :: "int option"
  c_model_params :: "(string \<times> param) list option"
  c_model_input :: "string list option"
  c_model_output :: "col_group list option"
  c_model_path :: string
  c_viz_mode :: "string option"
  c_viz_cols :: viz_cols
  c_history :: history

text \<open>
  The attributes of a \<^verbatim>\<open>ModelicaEnv\<close>, and \<open>logged\<close>: the calls made to the module's
  logger, oldest first. \<open>sim_time_interval\<close> is \<^verbatim>\<open>None\<close> until \<^verbatim>\<open>reset\<close>.
\<close>

record 'm env =
  viz_mode :: "string option"
  solver_method :: string
  model :: 'm
  reward :: "string list \<Rightarrow> real list \<Rightarrow> reward_value"
  failed :: bool
  max_episode_steps :: "int option"
  time_start :: real
  time_step_size :: real
  time_end :: time_limit
  model_parameters :: "(string \<times> (real \<Rightarrow> real)) list"
  sim_time_interval :: "(real \<times> real) option"
  state :: "real list"
  measurement :: "real list"
  record_states :: bool
  history :: history
  model_input_names :: "string list"
  model_output_names :: "string list"
  model_output_idx :: "nat list"
  viz_col_tmpls :: "plot_tmpl list"
  viz_col_regex :: regex
  logged :: "(level \<times> message) list"

definition log_msg :: "level \<Rightarrow> message \<Rightarrow> 'm env \<Rightarrow> 'm env" where
  "log_msg l m s = s\<lparr>logged := logged s @ [(l, m)]\<rparr>"

subsection \<open>\<^verbatim>\<open>__init__\<close>\<close>

definition basename :: "string \<Rightarrow> string" where
  "basename p = rev (takeWhile (\<lambda>c. c \<noteq> CHR ''/'') (rev p))"

fun lift_param :: "param \<Rightarrow> real \<Rightarrow> real" where
  "lift_param (Callable f) = f"
| "lift_param (Constant v) = (\<lambda>t. v)"

text \<open>The loop of lines 144-152 over a \<^verbatim>\<open>viz_cols\<close> list.\<close>

fun viz_list :: "viz_elem list \<Rightarrow> error + regex list \<times> plot_tmpl list" where
  "viz_list [] = Inr ([], [])"
| "viz_list (OtherElem # es) = Inl ValueError"
| "viz_list (PatternStr p # es) =
     (case viz_list es of Inl e \<Rightarrow> Inl e | Inr (ps, ts) \<Rightarrow> Inr (translate p # ps, ts))"
| "viz_list (Tmpl t # es) =
     (case viz_list es of Inl e \<Rightarrow> Inl e | Inr (ps, ts) \<Rightarrow> Inr (ps, t # ts))"

text \<open>Lines 137-161: the selector becomes one pattern and a list of templates.\<close>

fun viz_selector :: "viz_cols \<Rightarrow> error + regex \<times> plot_tmpl list \<times> (level \<times> message) list" where
  "viz_selector NoVizCols = Inr (Star Dot, [], [(INFO, VizColsHint)])"
| "viz_selector (VizList es) =
     (case viz_list es of Inl e \<Rightarrow> Inl e | Inr (ps, ts) \<Rightarrow> Inr (join_bar ps, ts, []))"
| "viz_selector (VizRegex r) = Inr (r, [], [])"
| "viz_selector VizOther = Inl ValueError"

definition init :: "'m fmu \<Rightarrow> config \<Rightarrow> error + 'm env" where
  "init F c =
     (case c_model_input c of
        None \<Rightarrow> Inl ValueError
      | Some inputs \<Rightarrow>
     (case c_model_output c of
        None \<Rightarrow> Inl ValueError
      | Some outputs \<Rightarrow>
     (if c_viz_mode c \<noteq> Some ''episode'' \<and> c_viz_mode c \<noteq> Some ''step'' \<and> c_viz_mode c \<noteq> None
      then Inl ValueError
      else
        (let hist = (c_history c)\<lparr>structured := outputs\<rparr> in
         case viz_selector (c_viz_cols c) of
           Inl e \<Rightarrow> Inl e
         | Inr (rx, tmpls, lg) \<Rightarrow>
             Inr \<lparr>viz_mode = c_viz_mode c,
                 solver_method = c_solver_method c,
                 model = load_fmu F (c_model_path c),
                 reward = c_reward_fun c,
                 failed = False,
                 max_episode_steps = c_max_episode_steps c,
                 time_start = c_time_start c,
                 time_step_size = c_time_step c,
                 time_end =
                   (case c_max_episode_steps c of
                      None \<Rightarrow> Unbounded
                    | Some k \<Rightarrow> Limit (c_time_start c + of_int k * c_time_step c)),
                 model_parameters =
                   (case c_model_params c of
                      None \<Rightarrow> []
                    | Some ps \<Rightarrow> map (\<lambda>(var, val). (var, lift_param val)) ps),
                 sim_time_interval = None,
                 state = [],
                 measurement = [],
                 record_states = (c_viz_mode c = Some ''episode''),
                 history = hist,
                 model_input_names = inputs,
                 model_output_names = cols hist,
                 model_output_idx = [],
                 viz_col_tmpls = tmpls,
                 viz_col_regex = rx,
                 logged =
                   [(DEBUG, LoadingModel (basename (c_model_path c))),
                    (DEBUG, LoadedModel (basename (c_model_path c)))] @ lg\<rparr>))))"

subsection \<open>\<^verbatim>\<open>_setup_fmu\<close>\<close>

text \<open>
  The event iteration of lines 177-183. The flag is set by hand before the loop, so the
  body runs once at least; nothing bounds the number of rounds, and a run that never
  leaves the loop is the value \<open>None\<close>.
\<close>

partial_function (option) event_iteration :: "'m fmu \<Rightarrow> 'm \<Rightarrow> 'm option" where
  "event_iteration F m =
     (if new_discrete_states_needed F (event_update F (enter_event_mode F m))
      then event_iteration F (event_update F (enter_event_mode F m))
      else Some (event_update F (enter_event_mode F m)))"

declare event_iteration.simps [code]

definition setup_fmu :: "'m fmu \<Rightarrow> 'm env \<Rightarrow> 'm env option" where
  "setup_fmu F s =
     (case event_iteration F
             (exit_initialization_mode F
               (enter_initialization_mode F (setup_experiment F (time_start s) (model s)))) of
        None \<Rightarrow> None
      | Some m \<Rightarrow>
          Some (s\<lparr>model := enter_continuous_time_mode F m,
                  model_output_idx :=
                    map (get_variable_valueref F (enter_continuous_time_mode F m))
                      (model_output_names s)\<rparr>))"

subsection \<open>\<^verbatim>\<open>_simulate\<close>\<close>

text \<open>
  Lines 223-242. Nothing catches what \<^verbatim>\<open>solve_ivp\<close> raises, and \<^verbatim>\<open>sol_out.success\<close>
  is not read. Subscripting \<^verbatim>\<open>sim_time_interval\<close> while it is \<^verbatim>\<open>None\<close> is a
  \<^verbatim>\<open>TypeError\<close>.
\<close>

definition simulate :: "'m fmu \<Rightarrow> 'm env \<Rightarrow> (error + real list) \<times> 'm env" where
  "simulate F s =
     (case sim_time_interval s of
        None \<Rightarrow> (Inl TypeError, s)
      | Some (t0, t1) \<Rightarrow>
          (let s1 = log_msg DEBUG (SimulationStarted t0 t1) s in
           case solve_ivp F (solver_method s1) (t0, t1) (get_continuous_states F (model s1)) (model s1) of
             (Inl e, m) \<Rightarrow> (Inl e, s1\<lparr>model := m\<rparr>)
           | (Inr (success, y_last), m) \<Rightarrow>
               (let m' = set_continuous_states F y_last m
                in (Inr (map (get_real F m') (model_output_idx s1)), s1\<lparr>model := m'\<rparr>))))"

subsection \<open>\<^verbatim>\<open>is_done\<close>\<close>

text \<open>Lines 244-256: a property that logs and answers (or raises before \<^verbatim>\<open>reset\<close>).\<close>

definition is_done :: "'m env \<Rightarrow> (error + bool) \<times> 'm env" where
  "is_done s =
     (if failed s then (Inr True, log_msg INFO RewardExtreme s)
      else
        (case sim_time_interval s of
           None \<Rightarrow> (Inl TypeError, s)
         | Some (t0, t1) \<Rightarrow> (Inr (exceeds \<bar>t1\<bar> (time_end s)), log_msg DEBUG (TimeIs t1) s)))"

subsection \<open>\<^verbatim>\<open>reset\<close>\<close>

definition reset :: "'m fmu \<Rightarrow> 'm env \<Rightarrow> ((error + real list) \<times> 'm env) option" where
  "reset F s =
     (let s1 = log_msg DEBUG ResetCalled s;
          s2 = s1\<lparr>model := setup_experiment F 0 (fmu_reset F (model s1))\<rparr>
      in case setup_fmu F s2 of
           None \<Rightarrow> None
         | Some s3 \<Rightarrow>
             (let s4 = s3\<lparr>sim_time_interval :=
                            Some (time_start s3, time_start s3 + time_step_size s3)\<rparr>;
                  s5 = s4\<lparr>history := history_reset (history s4)\<rparr>
              in case simulate F s5 of
                   (Inl e, s6) \<Rightarrow> Some (Inl e, s6)
                 | (Inr st, s6) \<Rightarrow>
                     (let s7 = s6\<lparr>state := st, measurement := []\<rparr>
                      in case history_append (history s7) (state s7) of
                           Inl e \<Rightarrow> Some (Inl e, s7)
                         | Inr h \<Rightarrow> Some (Inr (state s7), s7\<lparr>history := h, failed := False\<rparr>))))"

subsection \<open>\<^verbatim>\<open>step\<close>\<close>

type_synonym info = "(string \<times> string) list"

type_synonym step_result = "real list \<times> reward_value \<times> bool \<times> info"

text \<open>Lines 301-306: \<^verbatim>\<open>iter(action)\<close> fails on a scalar, which is then wrapped.\<close>

fun normalize_action :: "action \<Rightarrow> 'm env \<Rightarrow> real list \<times> 'm env" where
  "normalize_action (Sequence vs) s = (vs, s)"
| "normalize_action (Scalar v) s = ([v], log_msg WARNING ActionNotList s)"

text \<open>Lines 315-321: the inputs, then the parameters at the start of the interval.\<close>

definition set_inputs :: "'m fmu \<Rightarrow> real list \<Rightarrow> 'm env \<Rightarrow> (error + unit) \<times> 'm env" where
  "set_inputs F act s =
     (let s1 = log_msg DEBUG (ModelInput (model_input_names s) act) s;
          s2 = s1\<lparr>model := fmu_set F (model_input_names s1) act (model s1)\<rparr>
      in if model_parameters s2 \<noteq> [] then
           (case sim_time_interval s2 of
              None \<Rightarrow> (Inl TypeError, s2)
            | Some (t0, t1) \<Rightarrow>
                (Inr (),
                 s2\<lparr>model := fmu_set F (map fst (model_parameters s2))
                                (map (\<lambda>(var, f). f t0) (model_parameters s2)) (model s2)\<rparr>))
         else (Inr (), s2))"

text \<open>Line 334: \<^verbatim>\<open>self.sim_time_interval += self.time_step_size\<close>, on both ends.\<close>

definition advance :: "'m env \<Rightarrow> error + 'm env" where
  "advance s =
     (case sim_time_interval s of
        None \<Rightarrow> Inl TypeError
      | Some (t0, t1) \<Rightarrow>
          Inr (s\<lparr>sim_time_interval := Some (t0 + time_step_size s, t1 + time_step_size s)\<rparr>))"

text \<open>Lines 330-342, in the order of the code: the interval moves, then the reward is
  evaluated, then \<^verbatim>\<open>_failed\<close> is assigned, then \<^verbatim>\<open>is_done\<close> is read for the result.\<close>

definition finish_step :: "real list \<Rightarrow> 'm env \<Rightarrow> (error + step_result) \<times> 'm env" where
  "finish_step obs s =
     (case is_done s of
        (Inl e, s1) \<Rightarrow> (Inl e, s1)
      | (Inr d, s1) \<Rightarrow>
          (case (if \<not> d then advance (log_msg DEBUG StepContinues s1)
                 else Inr (log_msg DEBUG StepExperimentDone s1)) of
             Inl e \<Rightarrow> (Inl e, log_msg DEBUG StepContinues s1)
           | Inr s2 \<Rightarrow>
               (let r = reward s2 (cols (history s2)) obs
                in case failure_flag r of
                     Inl e \<Rightarrow> (Inl e, s2)
                   | Inr f \<Rightarrow>
                       (case is_done (s2\<lparr>failed := f\<rparr>) of
                          (Inl e, s3) \<Rightarrow> (Inl e, s3)
                        | (Inr d', s3) \<Rightarrow> (Inr (obs, r, d', []), s3)))))"

text \<open>Lines 315-328: inputs, simulation, observation, history.\<close>

definition simulate_step :: "'m fmu \<Rightarrow> real list \<Rightarrow> 'm env \<Rightarrow> (error + step_result) \<times> 'm env" where
  "simulate_step F act s =
     (case set_inputs F act s of
        (Inl e, s1) \<Rightarrow> (Inl e, s1)
      | (Inr u, s1) \<Rightarrow>
          (case simulate F s1 of
             (Inl e, s2) \<Rightarrow> (Inl e, s2)
           | (Inr st, s2) \<Rightarrow>
               (let s3 = s2\<lparr>state := st\<rparr>;
                    obs = state s3 @ measurement s3
                in case history_append (history s3) obs of
                     Inl e \<Rightarrow> (Inl e, s3)
                   | Inr h \<Rightarrow>
                       finish_step obs
                         (log_msg DEBUG (ModelOutput (model_output_names s3) (state s3))
                            (s3\<lparr>history := h\<rparr>)))))"

definition step :: "'m fmu \<Rightarrow> 'm env \<Rightarrow> action \<Rightarrow> (error + step_result) \<times> 'm env" where
  "step F s action =
     (case is_done (log_msg DEBUG StepCalled s) of
        (Inl e, s1) \<Rightarrow> (Inl e, s1)
      | (Inr True, s1) \<Rightarrow>
          (Inr (state s1, NegInf, True, []), log_msg WARNING StepAfterDone s1)
      | (Inr False, s1) \<Rightarrow>
          (case normalize_action action s1 of
             (act, s2) \<Rightarrow>
               if length act \<noteq> length (model_input_names s2) then
                 (Inl ValueError,
                  log_msg ERROR (ArityMessage (length (model_input_names s2))) s2)
               else simulate_step F act s2))"

text \<open>A caller that calls \<^verbatim>\<open>step\<close> once per action and keeps every outcome.\<close>

fun run :: "'m fmu \<Rightarrow> 'm env \<Rightarrow> action list \<Rightarrow> (error + step_result) list \<times> 'm env" where
  "run F s [] = ([], s)"
| "run F s (a # as) =
     (case step F s a of
        (out, s') \<Rightarrow> (case run F s' as of (outs, s'') \<Rightarrow> (out # outs, s'')))"

subsection \<open>\<^verbatim>\<open>render\<close> and \<^verbatim>\<open>close\<close>\<close>

datatype figure = ColumnsFigure "string list" | TemplateFigure plot_tmpl

text \<open>Lines 362-375: one figure for each group of columns that keeps a column.\<close>

fun column_figures :: "regex \<Rightarrow> col_group list \<Rightarrow> figure list" where
  "column_figures r [] = []"
| "column_figures r (g # gs) =
     (if filter (fullmatch r) (group_cols g) = [] then column_figures r gs
      else ColumnsFigure (filter (fullmatch r) (group_cols g)) # column_figures r gs)"

text \<open>The columns on the figures, in their order.\<close>

fun figure_columns :: "figure list \<Rightarrow> string list" where
  "figure_columns [] = []"
| "figure_columns (ColumnsFigure cs # fs) = cs @ figure_columns fs"
| "figure_columns (TemplateFigure t # fs) = figure_columns fs"

text \<open>Lines 344-392; \<open>None\<close> is the \<^verbatim>\<open>None\<close> a Python function returns by falling off.\<close>

definition render :: "'m env \<Rightarrow> bool \<Rightarrow> figure list option" where
  "render s close =
     (if viz_mode s = None then Some []
      else if close then
        (if viz_mode s = Some ''step'' then None
         else Some (column_figures (viz_col_regex s) (structured (history s))
                    @ map TemplateFigure (viz_col_tmpls s)))
      else if viz_mode s = Some ''step'' then None
      else None)"

definition close :: "'m env \<Rightarrow> bool \<times> figure list option" where
  "close s = (True, render s True)"

section \<open>Controller parameters\<close>

text \<open>
  \<^verbatim>\<open>params.py\<close>. A field holds a float or a \<^verbatim>\<open>MutableFloat\<close> (a class outside the
  sources: a float in a box, which \<^verbatim>\<open>float()\<close> reads). Python's \<^verbatim>\<open>/\<close> raises
  \<^verbatim>\<open>ZeroDivisionError\<close> on a zero divisor; a property returns a float or, where the
  code writes \<^verbatim>\<open>return 0\<close>, an int.
\<close>

datatype mfloat = PlainFloat real | MutableFloat real

fun float_of :: "mfloat \<Rightarrow> real" where
  "float_of (PlainFloat x) = x"
| "float_of (MutableFloat x) = x"

datatype pynum = PyFloat real | PyInt int

definition truediv :: "real \<Rightarrow> real \<Rightarrow> error + real" where
  "truediv a b = (if b = 0 then Inl ZeroDivisionError else Inr (a / b))"

record filter_params =
  p_gain :: mfloat
  p_tau :: mfloat

record droop_params = filter_params +
  nom_val :: real

definition FilterParams :: "mfloat \<Rightarrow> mfloat \<Rightarrow> filter_params" where
  "FilterParams gain tau = \<lparr>p_gain = gain, p_tau = tau\<rparr>"

definition DroopParams :: "mfloat \<Rightarrow> mfloat \<Rightarrow> real \<Rightarrow> droop_params" where
  "DroopParams gain tau nom_value = \<lparr>p_gain = gain, p_tau = tau, nom_val = nom_value\<rparr>"

definition FilterParams_gain :: "filter_params \<Rightarrow> pynum" where
  "FilterParams_gain p = PyFloat (float_of (p_gain p))"

text \<open>Lines 51-55 of \<^verbatim>\<open>params.py\<close>.\<close>

definition DroopParams_gain :: "droop_params \<Rightarrow> error + pynum" where
  "DroopParams_gain p =
     (if float_of (p_gain p) \<noteq> 0 then
        (case truediv 1 (float_of (p_gain p)) of
           Inl e \<Rightarrow> Inl e
         | Inr q \<Rightarrow> Inr (PyFloat q))
      else Inr (PyInt 0))"

section \<open>A recording oracle and a small configuration\<close>

text \<open>
  An oracle whose state is the list of the calls it has received, oldest first. Its
  solver returns its start value; every output reads as its value reference, and the
  value reference of a name is its length. With it, what the environment did to the
  oracle can be read from the oracle's state.
\<close>

datatype call =
    FmuReset
  | SetupExperiment real
  | EnterInitialization
  | ExitInitialization
  | EnterEvent
  | EventUpdate
  | EnterContinuous
  | SetVars "string list" "real list"
  | SetStates "real list"
  | Solve real real

definition probe :: "call list fmu" where
  "probe =
     \<lparr>load_fmu = (\<lambda>path. []),
      fmu_reset = (\<lambda>m. m @ [FmuReset]),
      setup_experiment = (\<lambda>t m. m @ [SetupExperiment t]),
      enter_initialization_mode = (\<lambda>m. m @ [EnterInitialization]),
      exit_initialization_mode = (\<lambda>m. m @ [ExitInitialization]),
      enter_event_mode = (\<lambda>m. m @ [EnterEvent]),
      event_update = (\<lambda>m. m @ [EventUpdate]),
      new_discrete_states_needed = (\<lambda>m. False),
      enter_continuous_time_mode = (\<lambda>m. m @ [EnterContinuous]),
      get_variable_valueref = (\<lambda>m name. length name),
      get_continuous_states = (\<lambda>m. [0]),
      set_continuous_states = (\<lambda>x m. m @ [SetStates x]),
      fmu_set = (\<lambda>names vals m. m @ [SetVars names vals]),
      get_real = (\<lambda>m i. of_nat i),
      solve_ivp = (\<lambda>meth iv x m. (Inr (True, x), m @ [Solve (fst iv) (snd iv)]))\<rparr>"




text \<open>
  One input \<^verbatim>\<open>u\<close>, the outputs \<^verbatim>\<open>a.i\<close>, \<^verbatim>\<open>a.v\<close> (one group) and \<^verbatim>\<open>b.i\<close>, a step of
  0.1, \<^verbatim>\<open>viz_cols = ["*.i"]\<close>; the start time, the number of steps and the reward
  function are left open.
\<close>

definition demo_config ::
  "real \<Rightarrow> int \<Rightarrow> (string list \<Rightarrow> real list \<Rightarrow> reward_value) \<Rightarrow> config" where
  "demo_config start k rf =
     \<lparr>c_time_step = 1 / 10,
      c_time_start = start,
      c_reward_fun = rf,
      c_solver_method = ''LSODA'',
      c_max_episode_steps = Some k,
      c_model_params = None,
      c_model_input = Some [''u''],
      c_model_output = Some [Group [''a.i'', ''a.v''], Single ''b.i''],
      c_model_path = ''../fmu/grid.network.fmu'',
      c_viz_mode = Some ''episode'',
      c_viz_cols = VizList [PatternStr ''*.i''],
      c_history = \<lparr>structured = [], records = []\<rparr>\<rparr>"

text \<open>
  A caller: construct the environment, \<^verbatim>\<open>reset\<close> it, then \<^verbatim>\<open>step\<close> once per action.
  The result is every outcome of \<^verbatim>\<open>step\<close> and the environment at the end; \<open>None\<close>
  when the constructor or \<^verbatim>\<open>reset\<close> raises or \<^verbatim>\<open>reset\<close> does not return.
\<close>

definition episode ::
  "'m fmu \<Rightarrow> config \<Rightarrow> action list \<Rightarrow> ((error + step_result) list \<times> 'm env) option" where
  "episode F c as =
     (case init F c of
        Inl e \<Rightarrow> None
      | Inr s0 \<Rightarrow>
          (case reset F s0 of
             None \<Rightarrow> None
           | Some (Inl e, s1) \<Rightarrow> None
           | Some (Inr obs, s1) \<Rightarrow> Some (run F s1 as)))"

text \<open>The environment as constructed, and as \<^verbatim>\<open>reset\<close> leaves it.\<close>

definition constructed ::
  "real \<Rightarrow> int \<Rightarrow> (string list \<Rightarrow> real list \<Rightarrow> reward_value) \<Rightarrow> call list env" where
  "constructed start k rf = projr (init probe (demo_config start k rf))"

definition started ::
  "real \<Rightarrow> int \<Rightarrow> (string list \<Rightarrow> real list \<Rightarrow> reward_value) \<Rightarrow> call list env" where
  "started start k rf = snd (the (reset probe (constructed start k rf)))"


text \<open>
  What no method of the environment assigns after construction (\<^verbatim>\<open>_setup_fmu\<close> apart,
  which computes \<^verbatim>\<open>model_output_idx\<close>, and \<^verbatim>\<open>reset\<close>, which empties
  \<^verbatim>\<open>measurement\<close>): two environments agree on all of it, the column schema of the
  history included.
\<close>

definition same_setup :: "'m env \<Rightarrow> 'm env \<Rightarrow> bool" where
  "same_setup s s' =
     (viz_mode s' = viz_mode s \<and> solver_method s' = solver_method s \<and> reward s' = reward s \<and>
      max_episode_steps s' = max_episode_steps s \<and> time_start s' = time_start s \<and>
      time_step_size s' = time_step_size s \<and> time_end s' = time_end s \<and>
      model_parameters s' = model_parameters s \<and> measurement s' = measurement s \<and>
      record_states s' = record_states s \<and>
      structured (history s') = structured (history s) \<and>
      model_input_names s' = model_input_names s \<and>
      model_output_names s' = model_output_names s \<and>
      model_output_idx s' = model_output_idx s \<and>
      viz_col_tmpls s' = viz_col_tmpls s \<and> viz_col_regex s' = viz_col_regex s)"

section \<open>Facts about \<^verbatim>\<open>is_done\<close> and the failure flag\<close>

lemma failure_flag_table:
  "failure_flag r =
     (case r of Float x \<Rightarrow> Inr False | NaN \<Rightarrow> Inr True | PosInf \<Rightarrow> Inr False
      | NegInf \<Rightarrow> Inr True | PyNone \<Rightarrow> Inl TypeError)"
  by (cases r) (simp_all add: failure_flag_def)

lemma is_done_fst:
  "fst (is_done s) =
     (if failed s then Inr True
      else case sim_time_interval s of None \<Rightarrow> Inl TypeError
           | Some (t0, t1) \<Rightarrow> Inr (exceeds \<bar>t1\<bar> (time_end s)))"
  by (simp add: is_done_def split: option.splits)



lemma is_done_False:
  "fst (is_done s) = Inr False \<Longrightarrow>
   \<not> failed s \<and> (\<exists>t0 t1. sim_time_interval s = Some (t0, t1) \<and> \<not> exceeds \<bar>t1\<bar> (time_end s))"
  by (cases "sim_time_interval s") (auto simp add: is_done_fst split: if_splits)



lemma run_Cons_snd: "snd (run F s (a # as)) = snd (run F (snd (step F s a)) as)"
  by (cases "step F s a"; cases "run F (snd (step F s a)) as") simp

section \<open>Stepping a terminal environment\<close>





section \<open>What a step changes\<close>

lemma same_setup_refl: "same_setup s s"
  by (simp add: same_setup_def)

lemma same_setup_trans: "same_setup s s' \<Longrightarrow> same_setup s' s'' \<Longrightarrow> same_setup s s''"
  by (simp add: same_setup_def)

lemma same_setup_is_done: "same_setup s (snd (is_done s))"
  by (simp add: same_setup_def is_done_def log_msg_def split: option.splits)

lemma same_setup_log: "same_setup s (log_msg l m s)"
  by (simp add: same_setup_def log_msg_def)

lemma same_setup_set_inputs: "same_setup s (snd (set_inputs F act s))"
  by (simp add: same_setup_def set_inputs_def log_msg_def Let_def split: option.splits)

lemma same_setup_simulate: "same_setup s (snd (simulate F s))"
  by (simp add: same_setup_def simulate_def log_msg_def Let_def split: option.splits prod.splits sum.splits)

lemma same_setup_advance: "advance s = Inr s' \<Longrightarrow> same_setup s s'"
  by (cases "sim_time_interval s") (auto simp add: same_setup_def advance_def)


lemma finish_step_running:
  assumes "sim_time_interval s = Some (t0, t1)" and "\<not> failed s"
    and "\<not> exceeds \<bar>t1\<bar> (time_end s)"
  shows "finish_step obs s =
     (case failure_flag (reward s (cols (history s)) obs) of
        Inl e \<Rightarrow>
          (Inl e,
           s\<lparr>logged := logged s @ [(DEBUG, TimeIs t1), (DEBUG, StepContinues)],
             sim_time_interval := Some (t0 + time_step_size s, t1 + time_step_size s)\<rparr>)
      | Inr f \<Rightarrow>
          (Inr (obs, reward s (cols (history s)) obs,
                f \<or> exceeds \<bar>t1 + time_step_size s\<bar> (time_end s), []),
           s\<lparr>logged := logged s @ [(DEBUG, TimeIs t1), (DEBUG, StepContinues),
                  if f then (INFO, RewardExtreme) else (DEBUG, TimeIs (t1 + time_step_size s))],
             sim_time_interval := Some (t0 + time_step_size s, t1 + time_step_size s),
             failed := f\<rparr>))"
  using assms
  by (simp add: finish_step_def is_done_def advance_def log_msg_def split: sum.splits)


lemma simulate_returns:
  assumes "sim_time_interval s = Some (t0, t1)"
    and "solve_ivp F (solver_method s) (t0, t1) (get_continuous_states F (model s)) (model s) =
           (Inr (ok, y), m)"
  shows "simulate F s =
     (Inr (map (get_real F (set_continuous_states F y m)) (model_output_idx s)),
      s\<lparr>logged := logged s @ [(DEBUG, SimulationStarted t0 t1)],
        model := set_continuous_states F y m\<rparr>)"
  using assms by (simp add: simulate_def log_msg_def Let_def)



lemma step_running:
  assumes int: "sim_time_interval s = Some (t0, t1)" and nf: "\<not> failed s"
    and ne: "\<not> exceeds \<bar>t1\<bar> (time_end s)"
    and ar: "length (fst (normalize_action a s)) = length (model_input_names s)"
    and sol: "solve_ivp F (solver_method s) (t0, t1)
                (get_continuous_states F (model (snd (set_inputs F (fst (normalize_action a s)) s))))
                (model (snd (set_inputs F (fst (normalize_action a s)) s))) = (Inr (ok, y), m)"
    and obs: "obs = map (get_real F (set_continuous_states F y m)) (model_output_idx s) @ measurement s"
    and len: "length obs = length (cols (history s))"
  shows "fst (step F s a) =
           (case failure_flag (reward s (cols (history s)) obs) of
              Inl e \<Rightarrow> Inl e
            | Inr f \<Rightarrow> Inr (obs, reward s (cols (history s)) obs,
                           f \<or> exceeds \<bar>t1 + time_step_size s\<bar> (time_end s), []))"
    and "sim_time_interval (snd (step F s a)) = Some (t0 + time_step_size s, t1 + time_step_size s)"
    and "failed (snd (step F s a)) =
           (case failure_flag (reward s (cols (history s)) obs) of Inl e \<Rightarrow> False | Inr f \<Rightarrow> f)"
    and "state (snd (step F s a)) = map (get_real F (set_continuous_states F y m)) (model_output_idx s)"
    and "history (snd (step F s a)) = (history s)\<lparr>records := records (history s) @ [obs]\<rparr>"
    and "model (snd (step F s a)) = set_continuous_states F y m"
  using assms
  by (cases a; cases "model_parameters s = []";
      simp add: step_def is_done_def simulate_step_def set_inputs_def simulate_def
        history_append_def finish_step_def advance_def log_msg_def cols_def Let_def
      split: sum.splits)+


lemma same_setup_finish_step: "same_setup s (snd (finish_step obs s))"
  by (simp add: same_setup_def finish_step_def is_done_def advance_def log_msg_def Let_def
      split: option.splits prod.splits sum.splits)

lemma history_append_structured:
  "history_append h rec = Inr h' \<Longrightarrow> structured h' = structured h"
  by (auto simp add: history_append_def split: if_splits)

lemma same_setup_simulate_step: "same_setup s (snd (simulate_step F act s))"
proof -
  obtain r1 s1 where a: "set_inputs F act s = (r1, s1)"
    by (cases "set_inputs F act s")
  have ss1: "same_setup s s1"
    using same_setup_set_inputs [of s F act] a by simp
  show ?thesis
  proof (cases r1)
    case (Inl e)
    with a ss1 show ?thesis by (simp add: simulate_step_def)
  next
    case u: (Inr u)
    obtain r2 s2 where b: "simulate F s1 = (r2, s2)"
      by (cases "simulate F s1")
    have ss2: "same_setup s s2"
      using same_setup_simulate [of s1 F] b ss1 same_setup_trans by fastforce
    show ?thesis
    proof (cases r2)
      case (Inl e)
      with a u b ss2 show ?thesis by (simp add: simulate_step_def)
    next
      case st: (Inr st)
      let ?s3 = "s2\<lparr>state := st\<rparr>"
      have ss3: "same_setup s ?s3"
        using ss2 by (simp add: same_setup_def)
      show ?thesis
      proof (cases "history_append (history ?s3) (state ?s3 @ measurement ?s3)")
        case (Inl e)
        with a u b st ss3 show ?thesis by (simp add: simulate_step_def Let_def)
      next
        case h: (Inr h)
        let ?s4 = "log_msg DEBUG (ModelOutput (model_output_names ?s3) (state ?s3)) (?s3\<lparr>history := h\<rparr>)"
        have "structured h = structured (history ?s3)"
          using history_append_structured [OF h] .
        then have ss4: "same_setup s ?s4"
          using ss3 by (simp add: same_setup_def log_msg_def)
        have "same_setup s (snd (finish_step (state ?s3 @ measurement ?s3) ?s4))"
          using same_setup_trans [OF ss4 same_setup_finish_step] .
        with a u b st h show ?thesis by (simp add: simulate_step_def Let_def)
      qed
    qed
  qed
qed

lemma same_setup_step: "same_setup s (snd (step F s a))"
proof -
  let ?s0 = "log_msg DEBUG StepCalled s"
  obtain r1 s1 where a: "is_done ?s0 = (r1, s1)"
    by (cases "is_done ?s0")
  have ss1: "same_setup s s1"
    using same_setup_trans [OF same_setup_log same_setup_is_done, of s DEBUG StepCalled] a by simp
  show ?thesis
  proof (cases r1)
    case (Inl e)
    with a ss1 show ?thesis by (simp add: step_def)
  next
    case d: (Inr d)
    show ?thesis
    proof (cases d)
      case True
      have "same_setup s (log_msg WARNING StepAfterDone s1)"
        using same_setup_trans [OF ss1 same_setup_log] .
      with a d True show ?thesis by (simp add: step_def)
    next
      case False
      obtain act s2 where n: "normalize_action a s1 = (act, s2)"
        by (cases "normalize_action a s1")
      have ss2: "same_setup s s2"
        using n ss1 same_setup_trans [OF ss1 same_setup_log] by (cases a) auto
      show ?thesis
      proof (cases "length act \<noteq> length (model_input_names s2)")
        case True
        have "same_setup s (log_msg ERROR (ArityMessage (length (model_input_names s2))) s2)"
          using same_setup_trans [OF ss2 same_setup_log] .
        with a d False n True show ?thesis by (simp add: step_def)
      next
        case ok: False
        have "same_setup s (snd (simulate_step F act s2))"
          using same_setup_trans [OF ss2 same_setup_simulate_step] .
        with a d False n ok show ?thesis by (simp add: step_def)
      qed
    qed
  qed
qed



lemma set_inputs_keeps:
  "failed (snd (set_inputs F act s)) = failed s \<and>
   sim_time_interval (snd (set_inputs F act s)) = sim_time_interval s \<and>
   history (snd (set_inputs F act s)) = history s \<and>
   state (snd (set_inputs F act s)) = state s"
  by (simp add: set_inputs_def log_msg_def Let_def split: option.splits)

lemma simulate_keeps:
  "failed (snd (simulate F s)) = failed s \<and>
   sim_time_interval (snd (simulate F s)) = sim_time_interval s \<and>
   history (snd (simulate F s)) = history s \<and>
   state (snd (simulate F s)) = state s"
  by (simp add: simulate_def log_msg_def Let_def split: option.splits prod.splits sum.splits)





lemma step_unfold_running:
  assumes nd: "fst (is_done s) = Inr False"
  shows "\<exists>s2. fst (is_done s2) = Inr False \<and> same_setup s s2 \<and>
           sim_time_interval s2 = sim_time_interval s \<and> failed s2 = failed s \<and>
           history s2 = history s \<and> state s2 = state s \<and> model s2 = model s \<and>
           step F s a =
             (if length (fst (normalize_action a s)) \<noteq> length (model_input_names s)
              then (Inl ValueError, log_msg ERROR (ArityMessage (length (model_input_names s))) s2)
              else simulate_step F (fst (normalize_action a s)) s2)"
proof -
  from is_done_False [OF nd] obtain t0 t1 where
    f: "\<not> failed s" and i: "sim_time_interval s = Some (t0, t1)"
    and x: "\<not> exceeds \<bar>t1\<bar> (time_end s)" by blast
  let ?s1 = "s\<lparr>logged := logged s @ [(DEBUG, StepCalled), (DEBUG, TimeIs t1)]\<rparr>"
  let ?s2 = "snd (normalize_action a ?s1)"
  have n: "fst (normalize_action a ?s1) = fst (normalize_action a s)"
    by (cases a) simp_all
  have s2: "?s2 = ?s1 \<or> ?s2 = ?s1\<lparr>logged := logged ?s1 @ [(WARNING, ActionNotList)]\<rparr>"
    by (cases a) (simp_all add: log_msg_def)
  have p: "fst (is_done ?s2) = Inr False \<and> same_setup s ?s2 \<and>
           sim_time_interval ?s2 = sim_time_interval s \<and> failed ?s2 = failed s \<and>
           history ?s2 = history s \<and> state ?s2 = state s \<and> model ?s2 = model s"
    using s2 f i x by (auto simp add: is_done_fst same_setup_def)
  have "step F s a =
             (if length (fst (normalize_action a s)) \<noteq> length (model_input_names s)
              then (Inl ValueError, log_msg ERROR (ArityMessage (length (model_input_names s))) ?s2)
              else simulate_step F (fst (normalize_action a s)) ?s2)"
    using f i x by (cases a) (simp_all add: step_def is_done_def log_msg_def)
  with p show ?thesis by blast
qed



lemma simulate_step_result:
  assumes nd: "fst (is_done s) = Inr False"
    and res: "simulate_step F act s = (Inr (obs, r, d, info), s')"
  shows "\<exists>t0 t1. sim_time_interval s = Some (t0, t1) \<and>
           sim_time_interval s' = Some (t0 + time_step_size s, t1 + time_step_size s) \<and>
           r = reward s (cols (history s)) obs \<and>
           failure_flag r = Inr (failed s') \<and>
           d = (failed s' \<or> exceeds \<bar>t1 + time_step_size s\<bar> (time_end s)) \<and>
           info = [] \<and> obs = state s' @ measurement s'"
proof -
  from is_done_False [OF nd] obtain t0 t1 where
    f: "\<not> failed s" and i: "sim_time_interval s = Some (t0, t1)"
    and x: "\<not> exceeds \<bar>t1\<bar> (time_end s)" by blast
  obtain r1 s1 where a: "set_inputs F act s = (r1, s1)"
    by (cases "set_inputs F act s")
  have k1: "failed s1 = failed s" "sim_time_interval s1 = sim_time_interval s"
    "history s1 = history s"
    using set_inputs_keeps [of F act s] a by simp_all
  have ss1: "same_setup s s1"
    using same_setup_set_inputs [of s F act] a by simp
  show ?thesis
  proof (cases r1)
    case (Inl e)
    with a res show ?thesis by (simp add: simulate_step_def)
  next
    case u: (Inr u)
    obtain r2 s2 where b: "simulate F s1 = (r2, s2)"
      by (cases "simulate F s1")
    have k2: "failed s2 = failed s" "sim_time_interval s2 = sim_time_interval s"
      "history s2 = history s"
      using simulate_keeps [of F s1] b k1 by simp_all
    have ss2: "same_setup s s2"
      using same_setup_simulate [of s1 F] b ss1 same_setup_trans by fastforce
    show ?thesis
    proof (cases r2)
      case (Inl e)
      with a u b res show ?thesis by (simp add: simulate_step_def)
    next
      case st: (Inr st)
      let ?s3 = "s2\<lparr>state := st\<rparr>"
      show ?thesis
      proof (cases "history_append (history ?s3) (state ?s3 @ measurement ?s3)")
        case (Inl e)
        with a u b st res show ?thesis by (simp add: simulate_step_def Let_def)
      next
        case h: (Inr h)
        let ?s4 = "log_msg DEBUG (ModelOutput (model_output_names ?s3) (state ?s3)) (?s3\<lparr>history := h\<rparr>)"
        let ?o = "state ?s3 @ measurement ?s3"
        have ch: "cols h = cols (history s)"
          using history_append_structured [OF h] k2 by (simp add: cols_def)
        have k4: "\<not> failed ?s4" "sim_time_interval ?s4 = Some (t0, t1)"
          "\<not> exceeds \<bar>t1\<bar> (time_end ?s4)"
          using k2 ss2 f i x by (simp_all add: log_msg_def same_setup_def)
        have e4: "time_step_size ?s4 = time_step_size s" "time_end ?s4 = time_end s"
          "reward ?s4 = reward s" "cols (history ?s4) = cols (history s)"
          using ss2 ch by (simp_all add: log_msg_def same_setup_def)
        have fs: "simulate_step F act s = finish_step ?o ?s4"
          using a u b st h by (simp add: simulate_step_def Let_def)
        note eq = finish_step_running [OF k4(2) k4(1) k4(3), of ?o]
        show ?thesis
        proof (cases "failure_flag (reward s (cols (history s)) ?o)")
          case (Inl e)
          with eq e4 fs res show ?thesis by simp
        next
          case (Inr fl)
          have "finish_step ?o ?s4 =
            (Inr (?o, reward s (cols (history s)) ?o,
                  fl \<or> exceeds \<bar>t1 + time_step_size s\<bar> (time_end s), []),
             ?s4\<lparr>logged := logged ?s4 @ [(DEBUG, TimeIs t1), (DEBUG, StepContinues),
                  if fl then (INFO, RewardExtreme) else (DEBUG, TimeIs (t1 + time_step_size s))],
               sim_time_interval := Some (t0 + time_step_size s, t1 + time_step_size s),
               failed := fl\<rparr>)"
            using eq Inr by (simp only: e4 sum.case)
          with fs res have
            "obs = ?o" "r = reward s (cols (history s)) ?o"
            "d = (fl \<or> exceeds \<bar>t1 + time_step_size s\<bar> (time_end s))" "info = []"
            "s' = ?s4\<lparr>logged := logged ?s4 @ [(DEBUG, TimeIs t1), (DEBUG, StepContinues),
                  if fl then (INFO, RewardExtreme) else (DEBUG, TimeIs (t1 + time_step_size s))],
               sim_time_interval := Some (t0 + time_step_size s, t1 + time_step_size s),
               failed := fl\<rparr>"
            by simp_all
          with Inr i show ?thesis by (simp add: log_msg_def)
        qed
      qed
    qed
  qed
qed

section \<open>Reward, failure and termination\<close>

lemma step_result:
  assumes nd: "fst (is_done s) = Inr False"
    and res: "step F s a = (Inr (obs, r, d, info), s')"
  shows "\<exists>t0 t1. sim_time_interval s = Some (t0, t1) \<and>
           sim_time_interval s' = Some (t0 + time_step_size s, t1 + time_step_size s) \<and>
           r = reward s (cols (history s)) obs \<and>
           failure_flag r = Inr (failed s') \<and>
           d = (failed s' \<or> exceeds \<bar>t1 + time_step_size s\<bar> (time_end s)) \<and>
           info = [] \<and> obs = state s' @ measurement s'"
proof -
  from step_unfold_running [OF nd, of F a] obtain s2 where
    d2: "fst (is_done s2) = Inr False" and ss: "same_setup s s2"
    and i2: "sim_time_interval s2 = sim_time_interval s"
    and h2: "history s2 = history s"
    and st: "step F s a =
             (if length (fst (normalize_action a s)) \<noteq> length (model_input_names s)
              then (Inl ValueError, log_msg ERROR (ArityMessage (length (model_input_names s))) s2)
              else simulate_step F (fst (normalize_action a s)) s2)"
    by blast
  have "simulate_step F (fst (normalize_action a s)) s2 = (Inr (obs, r, d, info), s')"
    using st res by (simp split: if_splits)
  from simulate_step_result [OF d2 this] ss i2 h2 show ?thesis
    by (simp add: same_setup_def)
qed

lemma step_none_reward:
  assumes "sim_time_interval s = Some (t0, t1)" and "\<not> failed s"
    and "\<not> exceeds \<bar>t1\<bar> (time_end s)"
    and "length (fst (normalize_action a s)) = length (model_input_names s)"
    and "solve_ivp F (solver_method s) (t0, t1)
           (get_continuous_states F (model (snd (set_inputs F (fst (normalize_action a s)) s))))
           (model (snd (set_inputs F (fst (normalize_action a s)) s))) = (Inr (ok, y), m)"
    and "obs = map (get_real F (set_continuous_states F y m)) (model_output_idx s) @ measurement s"
    and "length obs = length (cols (history s))"
    and "reward s (cols (history s)) obs = PyNone"
  shows "fst (step F s a) = Inl TypeError"
  using step_running(1) [OF assms(1-7)] assms(8) by (simp add: failure_flag_table)

text \<open>
  Once a step has returned \<^verbatim>\<open>done = True\<close>, the environment is terminal, and what it
  stores as \<^verbatim>\<open>_state\<close> is the observation just returned, up to the measurement
  (which is empty unless a caller assigns it).
\<close>

lemma done_observed_terminal:
  assumes nd: "fst (is_done s) = Inr False"
    and res: "step F s a = (Inr (obs, r, True, info), s')"
  shows "fst (is_done s') = Inr True" and "obs = state s' @ measurement s'"
proof -
  have "same_setup s (snd (step F s a))" by (rule same_setup_step)
  with res have te: "time_end s' = time_end s" by (simp add: same_setup_def)
  from step_result [OF nd res] te show "fst (is_done s') = Inr True"
    by (auto simp add: is_done_fst)
  from step_result [OF nd res] show "obs = state s' @ measurement s'"
    by blast
qed

text \<open>
  Claim C1. The claim holds for a reward that is \<^verbatim>\<open>nan\<close>, \<^verbatim>\<open>-inf\<close>, \<^verbatim>\<open>+inf\<close> or
  finite (see \<open>failure_flag_table\<close> and \<open>step_result\<close>: the flag is set for the first
  two only, and the step returns its tuple). It fails for \<^verbatim>\<open>None\<close>: line 339 calls
  \<^verbatim>\<open>np.isnan(reward)\<close> first, which raises \<^verbatim>\<open>TypeError\<close> on \<^verbatim>\<open>None\<close> before
  \<^verbatim>\<open>reward is None\<close> is looked at. Below, one step of an episode for each of the four
  special rewards: the outcome of \<^verbatim>\<open>step\<close> and \<^verbatim>\<open>_failed\<close> afterwards. With \<^verbatim>\<open>None\<close>
  the step raises and the flag stays unset.
\<close>

theorem none_reward_raises:
  "map_option (\<lambda>p. (fst p, failed (snd p)))
     (episode probe (demo_config 0 3 (\<lambda>cs obs. PyNone)) [Sequence [1]]) =
     Some ([Inl TypeError], False) \<and>
   map_option (\<lambda>p. (fst p, failed (snd p)))
     (episode probe (demo_config 0 3 (\<lambda>cs obs. NaN)) [Sequence [1]]) =
     Some ([Inr ([3, 3, 3], NaN, True, [])], True) \<and>
   map_option (\<lambda>p. (fst p, failed (snd p)))
     (episode probe (demo_config 0 3 (\<lambda>cs obs. NegInf)) [Sequence [1]]) =
     Some ([Inr ([3, 3, 3], NegInf, True, [])], True) \<and>
   map_option (\<lambda>p. (fst p, failed (snd p)))
     (episode probe (demo_config 0 3 (\<lambda>cs obs. PosInf)) [Sequence [1]]) =
     Some ([Inr ([3, 3, 3], PosInf, False, [])], False)"
  by code_simp

text \<open>
  Claim C3, as the code has it. For a step taken in a non-terminal environment that
  returns \<open>(obs, r, d, info)\<close>: \<open>r\<close> is the reward of this step's observation,
  \<^verbatim>\<open>_failed\<close> is the failure flag of \<open>r\<close>, and \<open>d\<close> is \<^verbatim>\<open>_failed\<close> or the end of the
  interval, as it stands when the step returns, exceeding \<^verbatim>\<open>time_end\<close>; when \<open>d\<close> is
  false the interval has moved by exactly one step size.
\<close>

theorem step_done_decision:
  assumes nd: "fst (is_done s) = Inr False"
    and res: "step F s a = (Inr (obs, r, d, info), s')"
  shows "r = reward s (cols (history s)) obs \<and>
         failure_flag r = Inr (failed s') \<and>
         (\<exists>u0 u1. sim_time_interval s' = Some (u0, u1) \<and>
            d = (failed s' \<or> exceeds \<bar>u1\<bar> (time_end s'))) \<and>
         (\<not> d \<longrightarrow>
            (\<exists>t0 t1. sim_time_interval s = Some (t0, t1) \<and>
               sim_time_interval s' = Some (t0 + time_step_size s, t1 + time_step_size s)))"
proof -
  have "same_setup s (snd (step F s a))" by (rule same_setup_step)
  with res have te: "time_end s' = time_end s" by (simp add: same_setup_def)
  from step_result [OF nd res] te show ?thesis by auto
qed

text \<open>The first step of the episode whose reward is always 1.\<close>

theorem step_done_decision_witness:
  "fst (is_done (started 0 3 (\<lambda>cs obs. Float 1))) = Inr False \<and>
   fst (step probe (started 0 3 (\<lambda>cs obs. Float 1)) (Sequence [1])) =
     Inr ([3, 3, 3], Float 1, False, []) \<and>
   sim_time_interval (started 0 3 (\<lambda>cs obs. Float 1)) = Some (0, 1 / 10) \<and>
   sim_time_interval (snd (step probe (started 0 3 (\<lambda>cs obs. Float 1)) (Sequence [1]))) =
     Some (1 / 10, 2 / 10) \<and>
   failed (snd (step probe (started 0 3 (\<lambda>cs obs. Float 1)) (Sequence [1]))) = False"
proof -
  let ?s = "started 0 3 (\<lambda>cs obs. Float 1)"
  have nd: "fst (is_done ?s) = Inr False"
    unfolding started_def constructed_def by code_simp
  have o: "fst (step probe ?s (Sequence [1])) = Inr ([3, 3, 3], Float 1, False, [])"
    unfolding started_def constructed_def by code_simp
  have i: "sim_time_interval ?s = Some (0, 1 / 10)"
    unfolding started_def constructed_def by code_simp
  have h: "time_step_size ?s = 1 / 10"
    unfolding started_def constructed_def by code_simp
  have res: "step probe ?s (Sequence [1]) =
      (Inr ([3, 3, 3], Float 1, False, []), snd (step probe ?s (Sequence [1])))"
    using o by (metis prod.collapse)
  note w = step_done_decision [OF nd res]
  from w have "failure_flag (Float 1) = Inr (failed (snd (step probe ?s (Sequence [1]))))"
    by blast
  then have f: "failed (snd (step probe ?s (Sequence [1]))) = False"
    by (simp add: failure_flag_table)
  from w i have "sim_time_interval (snd (step probe ?s (Sequence [1]))) =
      Some (0 + time_step_size ?s, 1 / 10 + time_step_size ?s)"
    by auto
  then have a: "sim_time_interval (snd (step probe ?s (Sequence [1]))) = Some (1 / 10, 2 / 10)"
    by (simp add: h)
  from nd o i a f show ?thesis by simp
qed

text \<open>
  The claim as stated (no advance on a step whose reward signals failure) fails: with a
  reward that is always \<^verbatim>\<open>nan\<close>, the interval is \<open>(0, 0.1)\<close> after \<^verbatim>\<open>reset\<close> and
  \<open>(0.1, 0.2)\<close> after the first step, which returns \<^verbatim>\<open>done = True\<close>. Line 332 reads
  \<^verbatim>\<open>is_done\<close> before the reward is evaluated.
\<close>

theorem failed_step_advances_clock:
  "map_option (\<lambda>p. sim_time_interval (snd p))
     (episode probe (demo_config 0 3 (\<lambda>cs obs. NaN)) []) = Some (Some (0, 1 / 10)) \<and>
   map_option (\<lambda>p. (fst p, sim_time_interval (snd p)))
     (episode probe (demo_config 0 3 (\<lambda>cs obs. NaN)) [Sequence [1]]) =
     Some ([Inr ([3, 3, 3], NaN, True, [])], Some (1 / 10, 1 / 5))"
  by code_simp

section \<open>A solver that fails\<close>






section \<open>An action of the wrong length\<close>

text \<open>
  Claim C6. In an environment that is not terminal, an action whose normalized length
  differs from the number of declared inputs makes \<^verbatim>\<open>step\<close> raise \<^verbatim>\<open>ValueError\<close>,
  after logging the error; the environment is as before, the log apart: the oracle has
  received no call (no input set, no integration), history and clock are unchanged.
\<close>

theorem step_arity_mismatch:
  assumes nd: "fst (is_done s) = Inr False"
    and ar: "length (fst (normalize_action a s)) \<noteq> length (model_input_names s)"
  shows "fst (step F s a) = Inl ValueError \<and>
         (snd (step F s a))\<lparr>logged := logged s\<rparr> = s \<and>
         model (snd (step F s a)) = model s \<and>
         history (snd (step F s a)) = history s \<and>
         sim_time_interval (snd (step F s a)) = sim_time_interval s \<and>
         last (logged (snd (step F s a))) = (ERROR, ArityMessage (length (model_input_names s)))"
proof -
  from is_done_False [OF nd] obtain t0 t1 where
    f: "\<not> failed s" and i: "sim_time_interval s = Some (t0, t1)"
    and x: "\<not> exceeds \<bar>t1\<bar> (time_end s)" by blast
  show ?thesis
    using f i x ar by (cases a) (simp_all add: step_def is_done_def log_msg_def)
qed

text \<open>
  Two values for the one input \<^verbatim>\<open>u\<close>: the oracle's record of calls ends with the
  calls of \<^verbatim>\<open>reset\<close>.
\<close>

theorem step_arity_mismatch_witness:
  "fst (is_done (started 0 3 (\<lambda>cs obs. Float 1))) = Inr False \<and>
   length (fst (normalize_action (Sequence [1, 2]) (started 0 3 (\<lambda>cs obs. Float 1)))) \<noteq>
     length (model_input_names (started 0 3 (\<lambda>cs obs. Float 1))) \<and>
   fst (step probe (started 0 3 (\<lambda>cs obs. Float 1)) (Sequence [1, 2])) = Inl ValueError \<and>
   model (snd (step probe (started 0 3 (\<lambda>cs obs. Float 1)) (Sequence [1, 2]))) =
     [FmuReset, SetupExperiment 0, SetupExperiment 0, EnterInitialization, ExitInitialization,
      EnterEvent, EventUpdate, EnterContinuous, Solve 0 (1 / 10), SetStates [0]] \<and>
   history (snd (step probe (started 0 3 (\<lambda>cs obs. Float 1)) (Sequence [1, 2]))) =
     history (started 0 3 (\<lambda>cs obs. Float 1)) \<and>
   sim_time_interval (snd (step probe (started 0 3 (\<lambda>cs obs. Float 1)) (Sequence [1, 2]))) =
     Some (0, 1 / 10)"
proof -
  let ?s = "started 0 3 (\<lambda>cs obs. Float 1)"
  have h1: "fst (is_done ?s) = Inr False"
    unfolding started_def constructed_def by code_simp
  have h2: "length (fst (normalize_action (Sequence [1, 2]) ?s)) \<noteq> length (model_input_names ?s)"
    unfolding started_def constructed_def by code_simp
  have m: "model ?s =
     [FmuReset, SetupExperiment 0, SetupExperiment 0, EnterInitialization, ExitInitialization,
      EnterEvent, EventUpdate, EnterContinuous, Solve 0 (1 / 10), SetStates [0]]"
    unfolding started_def constructed_def by code_simp
  have i: "sim_time_interval ?s = Some (0, 1 / 10)"
    unfolding started_def constructed_def by code_simp
  from step_arity_mismatch [OF h1 h2, of probe] h1 h2 m i show ?thesis by simp
qed

section \<open>A scalar action\<close>

lemma simulate_step_log:
  "simulate_step F act (s\<lparr>logged := l\<rparr>) =
     (fst (simulate_step F act (s\<lparr>logged := []\<rparr>)),
      (snd (simulate_step F act (s\<lparr>logged := []\<rparr>)))
        \<lparr>logged := l @ logged (snd (simulate_step F act (s\<lparr>logged := []\<rparr>)))\<rparr>)"
  by (simp add: simulate_step_def set_inputs_def simulate_def
        history_append_def finish_step_def is_done_def advance_def log_msg_def Let_def cols_def
      split: option.splits prod.splits sum.splits)


lemma step_running_eq:
  assumes f: "\<not> failed s" and i: "sim_time_interval s = Some (t0, t1)"
    and x: "\<not> exceeds \<bar>t1\<bar> (time_end s)"
  shows "step F s (Sequence vs) =
           (if length vs \<noteq> length (model_input_names s)
            then (Inl ValueError,
                  s\<lparr>logged := logged s @ [(DEBUG, StepCalled), (DEBUG, TimeIs t1),
                       (ERROR, ArityMessage (length (model_input_names s)))]\<rparr>)
            else simulate_step F vs
                   (s\<lparr>logged := logged s @ [(DEBUG, StepCalled), (DEBUG, TimeIs t1)]\<rparr>))"
    and "step F s (Scalar v) =
           (if 1 \<noteq> length (model_input_names s)
            then (Inl ValueError,
                  s\<lparr>logged := logged s @ [(DEBUG, StepCalled), (DEBUG, TimeIs t1),
                       (WARNING, ActionNotList),
                       (ERROR, ArityMessage (length (model_input_names s)))]\<rparr>)
            else simulate_step F [v]
                   (s\<lparr>logged := logged s @ [(DEBUG, StepCalled), (DEBUG, TimeIs t1),
                        (WARNING, ActionNotList)]\<rparr>))"
  using f i x by (simp_all add: step_def is_done_def log_msg_def)

text \<open>
  Claim C10. In an environment that is not terminal, a scalar action is wrapped into a
  list of one element before the arity check: \<^verbatim>\<open>step\<close> on the scalar \<open>v\<close> has the
  outcome of \<^verbatim>\<open>step\<close> on the sequence \<open>[v]\<close> and leaves the same environment, but for
  the log, which holds the warning right after the two lines of the terminal check.
  With one declared input the arity check passes, and the step is the simulation step
  with the input \<open>[v]\<close>.
\<close>

theorem step_scalar_action:
  assumes nd: "fst (is_done s) = Inr False"
  shows "fst (step F s (Scalar v)) = fst (step F s (Sequence [v])) \<and>
         (snd (step F s (Scalar v)))\<lparr>logged := []\<rparr> = (snd (step F s (Sequence [v])))\<lparr>logged := []\<rparr> \<and>
         (\<exists>entry rest. logged (snd (step F s (Scalar v))) =
            logged s @ [(DEBUG, StepCalled), entry, (WARNING, ActionNotList)] @ rest) \<and>
         (length (model_input_names s) = 1 \<longrightarrow>
            (\<exists>s2. s2\<lparr>logged := logged s\<rparr> = s \<and> step F s (Scalar v) = simulate_step F [v] s2))"
proof -
  from is_done_False [OF nd] obtain t0 t1 where
    f: "\<not> failed s" and i: "sim_time_interval s = Some (t0, t1)"
    and x: "\<not> exceeds \<bar>t1\<bar> (time_end s)" by blast
  note eq = step_running_eq [OF f i x, of F]
  let ?l = "logged s @ [(DEBUG, StepCalled), (DEBUG, TimeIs t1)]"
  let ?lw = "logged s @ [(DEBUG, StepCalled), (DEBUG, TimeIs t1), (WARNING, ActionNotList)]"
  let ?r = "simulate_step F [v] (s\<lparr>logged := []\<rparr>)"
  show ?thesis
  proof (cases "length (model_input_names s) = 1")
    case False
    then show ?thesis by (simp add: eq)
  next
    case True
    have a: "step F s (Sequence [v]) = (fst ?r, (snd ?r)\<lparr>logged := ?l @ logged (snd ?r)\<rparr>)"
      using True simulate_step_log [where F = F and act = "[v]" and s = s and l = ?l] by (simp add: eq)
    have b: "step F s (Scalar v) = (fst ?r, (snd ?r)\<lparr>logged := ?lw @ logged (snd ?r)\<rparr>)"
      using True simulate_step_log [where F = F and act = "[v]" and s = s and l = ?lw] by (simp add: eq)
    have c: "step F s (Scalar v) = simulate_step F [v] (s\<lparr>logged := ?lw\<rparr>)"
      using True by (simp add: eq)
    have d: "(s\<lparr>logged := ?lw\<rparr>)\<lparr>logged := logged s\<rparr> = s" by simp
    have e: "logged (snd (step F s (Scalar v))) =
        logged s @ [(DEBUG, StepCalled), (DEBUG, TimeIs t1), (WARNING, ActionNotList)] @ logged (snd ?r)"
      by (simp add: b)
    from a b have "fst (step F s (Scalar v)) = fst (step F s (Sequence [v]))"
      and "(snd (step F s (Scalar v)))\<lparr>logged := []\<rparr> = (snd (step F s (Sequence [v])))\<lparr>logged := []\<rparr>"
      by simp_all
    with c d e show ?thesis by blast
  qed
qed

text \<open>
  With the one input \<^verbatim>\<open>u\<close>: the scalar 5 and the sequence \<open>[5]\<close> give the same result
  and the same calls to the oracle, the first of them \<^verbatim>\<open>set\<close> with \<open>[5]\<close>; the warning
  is the seventh line of the log.
\<close>

theorem step_scalar_action_witness:
  "fst (is_done (started 0 3 (\<lambda>cs obs. Float 1))) = Inr False \<and>
   length (model_input_names (started 0 3 (\<lambda>cs obs. Float 1))) = 1 \<and>
   fst (step probe (started 0 3 (\<lambda>cs obs. Float 1)) (Scalar 5)) =
     Inr ([3, 3, 3], Float 1, False, []) \<and>
   fst (step probe (started 0 3 (\<lambda>cs obs. Float 1)) (Sequence [5])) =
     Inr ([3, 3, 3], Float 1, False, []) \<and>
   model (snd (step probe (started 0 3 (\<lambda>cs obs. Float 1)) (Scalar 5))) =
     model (snd (step probe (started 0 3 (\<lambda>cs obs. Float 1)) (Sequence [5]))) \<and>
   last (model (snd (step probe (started 0 3 (\<lambda>cs obs. Float 1)) (Scalar 5)))) = SetStates [0] \<and>
   model (snd (step probe (started 0 3 (\<lambda>cs obs. Float 1)) (Scalar 5))) ! 10 = SetVars [''u''] [5] \<and>
   logged (snd (step probe (started 0 3 (\<lambda>cs obs. Float 1)) (Scalar 5))) ! 6 =
     (WARNING, ActionNotList)"
proof -
  let ?s = "started 0 3 (\<lambda>cs obs. Float 1)"
  have nd: "fst (is_done ?s) = Inr False"
    unfolding started_def constructed_def by code_simp
  have n: "length (model_input_names ?s) = 1"
    unfolding started_def constructed_def by code_simp
  have o: "fst (step probe ?s (Scalar 5)) = Inr ([3, 3, 3], Float 1, False, [])"
    unfolding started_def constructed_def by code_simp
  have m: "last (model (snd (step probe ?s (Scalar 5)))) = SetStates [0]"
    unfolding started_def constructed_def by code_simp
  have m2: "model (snd (step probe ?s (Scalar 5))) ! 10 = SetVars [''u''] [5]"
    unfolding started_def constructed_def by code_simp
  have l: "logged (snd (step probe ?s (Scalar 5))) ! 6 = (WARNING, ActionNotList)"
    unfolding started_def constructed_def by code_simp
  note w = step_scalar_action [OF nd, of probe 5]
  from w have e1: "fst (step probe ?s (Scalar 5)) = fst (step probe ?s (Sequence [5]))"
    by blast
  from w have "(snd (step probe ?s (Scalar 5)))\<lparr>logged := []\<rparr> =
      (snd (step probe ?s (Sequence [5])))\<lparr>logged := []\<rparr>"
    by blast
  from arg_cong [OF this, of model]
  have e2: "model (snd (step probe ?s (Scalar 5))) = model (snd (step probe ?s (Sequence [5])))"
    by simp
  from nd n o e1 e2 m m2 l show ?thesis by simp
qed

section \<open>The clock\<close>



section \<open>The number of steps of an episode\<close>











section \<open>The columns that are rendered\<close>

lemma fullmatch_Nothing: "fullmatch Nothing w = False"
  by (induction w) simp_all

lemma fullmatch_Eps: "fullmatch Eps w = (w = [])"
  by (cases w) (simp_all add: fullmatch_Nothing)

lemma fullmatch_Alt: "fullmatch (Alt r s) w = (fullmatch r w \<or> fullmatch s w)"
  by (induction w arbitrary: r s) simp_all

lemma fullmatch_join_bar:
  "fullmatch (join_bar rs) w = (if rs = [] then w = [] else \<exists>r\<in>set rs. fullmatch r w)"
  by (induction rs rule: join_bar.induct) (simp_all add: fullmatch_Eps fullmatch_Alt)

lemma viz_list_patterns:
  "viz_list es = Inr (ps, ts) \<Longrightarrow>
   set ps = {translate p |p. PatternStr p \<in> set es} \<and> (ps = [] \<longleftrightarrow> (\<forall>p. PatternStr p \<notin> set es))"
proof (induction es arbitrary: ps ts rule: viz_list.induct)
  case 1
  then show ?case by simp
next
  case (2 es)
  then show ?case by simp
next
  case (3 p es)
  then obtain ps' where "viz_list es = Inr (ps', ts)" and "ps = translate p # ps'"
    by (auto split: sum.splits)
  with 3 show ?case by auto
next
  case (4 t es)
  then obtain ts' where "viz_list es = Inr (ps, ts')"
    by (auto split: sum.splits)
  with 4 show ?case by auto
qed

lemma figure_columns_column_figures:
  "figure_columns (column_figures r gs @ map TemplateFigure ts) =
     filter (fullmatch r) (concat (map group_cols gs))"
proof (induction gs)
  case Nil
  show ?case by (induction ts) simp_all
next
  case (Cons g gs)
  then show ?case by (simp add: filter_empty_conv)
qed


lemma init_viz:
  assumes "init F c = Inr s0" and "c_viz_cols c = VizList es"
  shows "\<exists>ps ts. viz_list es = Inr (ps, ts) \<and> viz_col_regex s0 = join_bar ps \<and>
           viz_col_tmpls s0 = ts \<and> viz_mode s0 = c_viz_mode c"
proof (cases "viz_list es")
  case (Inl e)
  with assms show ?thesis
    by (simp add: init_def Let_def split: option.splits if_splits)
next
  case (Inr pt)
  obtain ps ts where pt: "pt = (ps, ts)" by (cases pt)
  from assms Inr pt have "viz_col_regex s0 = join_bar ps \<and> viz_col_tmpls s0 = ts \<and>
      viz_mode s0 = c_viz_mode c"
    by (auto simp add: init_def Let_def split: option.splits if_splits)
  with Inr pt show ?thesis by simp
qed

lemma reset_viz:
  "reset F s = Some (out, s') \<Longrightarrow>
   viz_mode s' = viz_mode s \<and> viz_col_regex s' = viz_col_regex s \<and>
   viz_col_tmpls s' = viz_col_tmpls s \<and> structured (history s') = structured (history s)"
  by (auto simp add: reset_def setup_fmu_def simulate_def history_append_def history_reset_def
        log_msg_def Let_def split: option.splits prod.splits sum.splits if_splits)

lemma same_setup_run: "same_setup s (snd (run F s as))"
proof (induction as arbitrary: s)
  case Nil
  show ?case by (simp add: same_setup_refl)
next
  case (Cons a as)
  have "same_setup s (snd (run F (snd (step F s a)) as))"
    using same_setup_trans [OF same_setup_step Cons.IH] .
  then show ?case by (simp only: run_Cons_snd)
qed

text \<open>
  Claim C8. A \<^verbatim>\<open>viz_cols\<close> list is turned at construction into one pattern, the
  alternatives of the translations of its strings, and no step changes it. At the end
  of an episode (construction in the mode \<^verbatim>\<open>'episode'\<close>, \<^verbatim>\<open>reset\<close>, any number of
  steps), \<^verbatim>\<open>close\<close> renders figures whose columns are exactly the columns of the
  history that fully match the translation of one of the strings. The list holds a
  string or no column name is empty: the join of no pattern is the empty pattern, which
  matches the empty name.
\<close>

theorem render_selects_matching_columns:
  assumes ini: "init F c = Inr s0"
    and vc: "c_viz_cols c = VizList es"
    and vm: "c_viz_mode c = Some ''episode''"
    and rs: "reset F s0 = Some (out, s1)"
    and rn: "run F s1 as = (outs, s)"
    and nd: "(\<exists>p. PatternStr p \<in> set es) \<or> [] \<notin> set (cols (history s0))"
  shows "(\<exists>ps ts. viz_list es = Inr (ps, ts) \<and> viz_col_regex s0 = join_bar ps) \<and>
         viz_col_regex s = viz_col_regex s0 \<and>
         (\<exists>figs. close s = (True, Some figs) \<and>
            figure_columns figs =
              filter (\<lambda>col. \<exists>p. PatternStr p \<in> set es \<and> fullmatch (translate p) col)
                (cols (history s)))"
proof -
  from init_viz [OF ini vc] obtain ps ts where
    vl: "viz_list es = Inr (ps, ts)" and rx0: "viz_col_regex s0 = join_bar ps"
    and tm0: "viz_col_tmpls s0 = ts" and vm0: "viz_mode s0 = c_viz_mode c"
    by blast
  have ss: "same_setup s1 s"
    using same_setup_run [of s1 F as] rn by simp
  note r = reset_viz [OF rs]
  have rx: "viz_col_regex s = join_bar ps" and md: "viz_mode s = Some ''episode''"
    and st: "structured (history s) = structured (history s0)"
    using ss r rx0 vm0 vm by (simp_all add: same_setup_def)
  let ?figs = "column_figures (viz_col_regex s) (structured (history s))
                @ map TemplateFigure (viz_col_tmpls s)"
  have cl: "close s = (True, Some ?figs)"
    using md by (simp add: close_def render_def)
  have fc: "figure_columns ?figs = filter (fullmatch (join_bar ps)) (cols (history s))"
    by (simp only: figure_columns_column_figures rx cols_def)
  have ne: "ps = [] \<Longrightarrow> [] \<notin> set (cols (history s))"
    using nd viz_list_patterns [OF vl] st by (auto simp add: cols_def)
  have m: "fullmatch (join_bar ps) col =
        (\<exists>p. PatternStr p \<in> set es \<and> fullmatch (translate p) col)"
    if "col \<in> set (cols (history s))" for col
  proof (cases "ps = []")
    case True
    with ne that have "col \<noteq> []" by auto
    with True viz_list_patterns [OF vl] show ?thesis
      by (simp add: fullmatch_Eps)
  next
    case False
    with viz_list_patterns [OF vl] show ?thesis
      by (auto simp add: fullmatch_join_bar)
  qed
  have "filter (fullmatch (join_bar ps)) (cols (history s)) =
        filter (\<lambda>col. \<exists>p. PatternStr p \<in> set es \<and> fullmatch (translate p) col)
          (cols (history s))"
    by (rule filter_cong) (simp_all add: m)
  with fc have fc2: "figure_columns ?figs =
        filter (\<lambda>col. \<exists>p. PatternStr p \<in> set es \<and> fullmatch (translate p) col)
          (cols (history s))"
    by simp
  have "viz_col_regex s = viz_col_regex s0"
    using rx rx0 by simp
  with vl rx0 cl fc2 show ?thesis by blast
qed

text \<open>
  Scenario D: \<^verbatim>\<open>viz_cols = ["*.i"]\<close> with the columns \<^verbatim>\<open>a.i\<close>, \<^verbatim>\<open>a.v\<close>, \<^verbatim>\<open>b.i\<close>: the
  figures hold \<^verbatim>\<open>a.i\<close> and \<^verbatim>\<open>b.i\<close>.
\<close>

theorem render_selects_matching_columns_witness:
  "init probe (demo_config 0 3 (\<lambda>cs obs. Float 1)) = Inr (constructed 0 3 (\<lambda>cs obs. Float 1)) \<and>
   c_viz_cols (demo_config 0 3 (\<lambda>cs obs. Float 1)) = VizList [PatternStr ''*.i''] \<and>
   cols (history (constructed 0 3 (\<lambda>cs obs. Float 1))) = [''a.i'', ''a.v'', ''b.i''] \<and>
   viz_col_regex (constructed 0 3 (\<lambda>cs obs. Float 1)) = translate ''*.i'' \<and>
   map (fullmatch (translate ''*.i'')) [''a.i'', ''a.v'', ''b.i''] = [True, False, True] \<and>
   close (snd (run probe (started 0 3 (\<lambda>cs obs. Float 1))
                 [Sequence [1], Sequence [1], Sequence [1]])) =
     (True, Some [ColumnsFigure [''a.i''], ColumnsFigure [''b.i'']]) \<and>
   figure_columns [ColumnsFigure [''a.i''], ColumnsFigure [''b.i'']] = [''a.i'', ''b.i''] \<and>
   filter (\<lambda>col. \<exists>p. PatternStr p \<in> set [PatternStr ''*.i''] \<and> fullmatch (translate p) col)
     (cols (history (snd (run probe (started 0 3 (\<lambda>cs obs. Float 1))
                            [Sequence [1], Sequence [1], Sequence [1]])))) = [''a.i'', ''b.i'']"
proof -
  let ?cfg = "demo_config 0 3 (\<lambda>cs obs. Float 1)"
  let ?c = "constructed 0 3 (\<lambda>cs obs. Float 1)"
  let ?s1 = "started 0 3 (\<lambda>cs obs. Float 1)"
  let ?as = "[Sequence [1], Sequence [1], Sequence [1]]"
  let ?s = "snd (run probe ?s1 ?as)"
  have "\<not> isl (init probe ?cfg)" by code_simp
  then have ini: "init probe ?cfg = Inr ?c"
    by (cases "init probe ?cfg") (simp_all add: constructed_def)
  have vc: "c_viz_cols ?cfg = VizList [PatternStr ''*.i'']"
    by (simp add: demo_config_def)
  have vm: "c_viz_mode ?cfg = Some ''episode''"
    by (simp add: demo_config_def)
  have "\<not> Option.is_none (reset probe ?c)"
    unfolding constructed_def by code_simp
  then have rs: "reset probe ?c = Some (fst (the (reset probe ?c)), ?s1)"
    by (simp add: started_def Option.is_none_def)
  have rn: "run probe ?s1 ?as = (fst (run probe ?s1 ?as), ?s)"
    by simp
  have nd: "(\<exists>p. PatternStr p \<in> set [PatternStr ''*.i'']) \<or> [] \<notin> set (cols (history ?c))"
    by simp
  have co: "cols (history ?c) = [''a.i'', ''a.v'', ''b.i'']"
    unfolding constructed_def by code_simp
  have rx: "viz_col_regex ?c = translate ''*.i''"
    unfolding constructed_def by code_simp
  have fm: "map (fullmatch (translate ''*.i'')) [''a.i'', ''a.v'', ''b.i''] = [True, False, True]"
    by code_simp
  have cl: "close ?s = (True, Some [ColumnsFigure [''a.i''], ColumnsFigure [''b.i'']])"
    unfolding started_def constructed_def by code_simp
  from render_selects_matching_columns [OF ini vc vm rs rn nd] cl
  have "filter (\<lambda>col. \<exists>p. PatternStr p \<in> set [PatternStr ''*.i''] \<and> fullmatch (translate p) col)
     (cols (history ?s)) = [''a.i'', ''b.i'']"
    by auto
  with ini vc co rx fm cl show ?thesis by simp
qed

section \<open>The droop gain\<close>


lemma droop_gain_examples:
  "DroopParams_gain (DroopParams (PlainFloat 1000) (PlainFloat 1) 50) = Inr (PyFloat (1 / 1000)) \<and>
   DroopParams_gain (DroopParams (MutableFloat 0) (PlainFloat 1) 50) = Inr (PyInt 0)"
  by (simp add: DroopParams_gain_def DroopParams_def truediv_def)

end
